theory Spec2Isabelle
  imports Main "HOL-Library.Word" "HOL-Library.Multiset"
begin

section \<open>The callback registry of clamav.go\<close>

text \<open>
  An \<^verbatim>\<open>unsafe.Pointer\<close> is a machine address; \<open>0\<close> is \<^verbatim>\<open>nil\<close>.
\<close>

type_synonym ptr = "64 word"

text \<open>
  A Go call returns, panics with a message, never returns because it waits for a
  \<^verbatim>\<open>sync.Mutex\<close> that nobody will release, or brings the process down with a runtime
  \<^verbatim>\<open>throw\<close> (no deferred call runs then). The state is returned with every outcome:
  a panic unwinds through the deferred calls and can be recovered by a caller.
\<close>

datatype 'a outcome = Return 'a | Panicked string | Blocked | Crashed string

text \<open>
  What happened to the mutex and the map of \<^verbatim>\<open>callbacks\<close>, and when the foreign scan
  entry point was entered and left, in the order it happened.
\<close>

datatype event =
    EvLock | EvUnlock
  | EvStore ptr | EvLoad ptr | EvDelete ptr
  | EvScanEnter ptr | EvScanExit

text \<open>
  The package variable \<^verbatim>\<open>callbacks\<close> (a \<^verbatim>\<open>Callback\<close>: the embedded mutex, \<^verbatim>\<open>nextID\<close>
  and the map \<^verbatim>\<open>cb\<close>), the live allocations of the C heap, and the events so far.
\<close>

record 'v state =
  mu :: bool
  nextID :: "64 word"
  cb :: "ptr \<rightharpoonup> 'v"
  heap :: "ptr set"
  trace :: "event list"

text \<open>\<^verbatim>\<open>var callbacks = Callback{cb: map[unsafe.Pointer]interface{}{}}\<close>, on a C heap \<open>H\<close>.\<close>

definition callbacks0 :: "ptr set \<Rightarrow> 'v state" where
  "callbacks0 H = \<lparr>mu = False, nextID = 0, cb = Map.empty, heap = H, trace = []\<rparr>"

subsection \<open>The C allocator\<close>

text \<open>
  \<^verbatim>\<open>C.malloc\<close> belongs to the C library. The address it answers is an input of the model
  (\<open>0\<close> when it fails); \<open>malloc_ok\<close> is what the C standard promises about that address:
  it is null or it is not inside any live allocation.
\<close>

definition C_malloc :: "ptr \<Rightarrow> 'v state \<Rightarrow> ptr \<times> 'v state" where
  "C_malloc r s = (r, if r = 0 then s else s\<lparr>heap := insert r (heap s)\<rparr>)"

definition malloc_ok :: "ptr \<Rightarrow> 'v state \<Rightarrow> bool" where
  "malloc_ok r s = (r = 0 \<or> r \<notin> heap s)"

definition C_free :: "ptr \<Rightarrow> 'v state \<Rightarrow> 'v state" where
  "C_free p s = s\<lparr>heap := heap s - {p}\<rparr>"

subsection \<open>Mutex and map primitives\<close>

definition Lock :: "'v state \<Rightarrow> 'v state" where
  "Lock s = s\<lparr>mu := True, trace := trace s @ [EvLock]\<rparr>"

definition Unlock :: "'v state \<Rightarrow> 'v state" where
  "Unlock s = s\<lparr>mu := False, trace := trace s @ [EvUnlock]\<rparr>"

definition mapStore :: "ptr \<Rightarrow> 'v \<Rightarrow> 'v state \<Rightarrow> 'v state" where
  "mapStore k v s = s\<lparr>cb := (cb s)(k \<mapsto> v), trace := trace s @ [EvStore k]\<rparr>"

definition mapLoad :: "ptr \<Rightarrow> 'v state \<Rightarrow> 'v option \<times> 'v state" where
  "mapLoad k s = (cb s k, s\<lparr>trace := trace s @ [EvLoad k]\<rparr>)"

definition mapDelete :: "ptr \<Rightarrow> 'v state \<Rightarrow> 'v state" where
  "mapDelete k s = s\<lparr>cb := (cb s)(k := None), trace := trace s @ [EvDelete k]\<rparr>"

subsection \<open>setContext, findContext, deleteContext\<close>

text \<open>
  \<open>setContext r i\<close>: \<open>r\<close> is the address \<^verbatim>\<open>C.malloc(1)\<close> answers. The deferred
  \<^verbatim>\<open>Unlock\<close> runs on the way out of each function, on a panic too.
\<close>

definition setContext :: "ptr \<Rightarrow> 'v \<Rightarrow> 'v state \<Rightarrow> ptr outcome \<times> 'v state" where
  "setContext r i s =
     (case C_malloc r s of (cptr, s1) \<Rightarrow>
        if cptr = 0 then (Panicked ''C malloc'', s1)
        else if mu s1 then (Blocked, s1)
        else (Return cptr, Unlock (mapStore cptr i (Lock s1))))"

definition findContext :: "ptr \<Rightarrow> 'v state \<Rightarrow> 'v outcome \<times> 'v state" where
  "findContext key s =
     (if mu s then (Blocked, s)
      else case mapLoad key (Lock s) of
             (Some v, s1) \<Rightarrow> (Return v, Unlock s1)
           | (None, s1) \<Rightarrow> (Panicked ''no context for callback'', Unlock s1))"

definition deleteContext :: "ptr \<Rightarrow> 'v state \<Rightarrow> unit outcome \<times> 'v state" where
  "deleteContext key s =
     (if mu s then (Blocked, s)
      else case mapLoad key (Lock s) of
             (Some v, s1) \<Rightarrow> (Return (), Unlock (C_free key (mapDelete key s1)))
           | (None, s1) \<Rightarrow> (Panicked ''no context to delete'', Unlock s1))"

subsection \<open>Sequences of registry operations\<close>

text \<open>
  One call of the registry; \<open>SetContext r v\<close> carries the allocator's answer \<open>r\<close>.
  \<open>run\<close> performs the calls in order (a caller that recovers from a panic goes on) and
  collects the keys \<^verbatim>\<open>setContext\<close> returned and the keys of the \<^verbatim>\<open>deleteContext\<close> calls
  that completed.
\<close>

datatype 'v op = SetContext ptr 'v | FindContext ptr | DeleteContext ptr

fun step :: "'v op \<Rightarrow> 'v state \<Rightarrow> 'v state" where
  "step (SetContext r v) s = snd (setContext r v s)"
| "step (FindContext k) s = snd (findContext k s)"
| "step (DeleteContext k) s = snd (deleteContext k s)"

fun minted :: "'v op \<Rightarrow> 'v state \<Rightarrow> ptr list" where
  "minted (SetContext r v) s = (case fst (setContext r v s) of Return k \<Rightarrow> [k] | _ \<Rightarrow> [])"
| "minted _ s = []"

fun released :: "'v op \<Rightarrow> 'v state \<Rightarrow> ptr list" where
  "released (DeleteContext k) s = (case fst (deleteContext k s) of Return _ \<Rightarrow> [k] | _ \<Rightarrow> [])"
| "released _ s = []"

fun run :: "'v op list \<Rightarrow> 'v state \<Rightarrow> 'v state" where
  "run [] s = s"
| "run (x # xs) s = run xs (step x s)"

fun registered :: "'v op list \<Rightarrow> 'v state \<Rightarrow> ptr list" where
  "registered [] s = []"
| "registered (x # xs) s = minted x s @ registered xs (step x s)"

fun unregistered :: "'v op list \<Rightarrow> 'v state \<Rightarrow> ptr list" where
  "unregistered [] s = []"
| "unregistered (x # xs) s = released x s @ unregistered xs (step x s)"

text \<open>The allocator keeps its promise at every \<^verbatim>\<open>setContext\<close> of the sequence.\<close>

fun alloc_ok :: "'v op list \<Rightarrow> 'v state \<Rightarrow> bool" where
  "alloc_ok [] s = True"
| "alloc_ok (SetContext r v # xs) s = (malloc_ok r s \<and> alloc_ok xs (step (SetContext r v) s))"
| "alloc_ok (x # xs) s = alloc_ok xs (step x s)"

text \<open>
  The state between two calls: the mutex is free, every key of the map is a live
  allocation, and no allocation sits at the null address.
\<close>

definition quiescent :: "'v state \<Rightarrow> bool" where
  "quiescent s = (\<not> mu s \<and> dom (cb s) \<subseteq> heap s \<and> 0 \<notin> heap s)"

text \<open>Every access to the map in a trace happens while the mutex is held.\<close>

fun guarded :: "bool \<Rightarrow> event list \<Rightarrow> bool" where
  "guarded held [] = (\<not> held)"
| "guarded held (EvLock # es) = (\<not> held \<and> guarded True es)"
| "guarded held (EvUnlock # es) = (held \<and> guarded False es)"
| "guarded held (EvStore k # es) = (held \<and> guarded held es)"
| "guarded held (EvLoad k # es) = (held \<and> guarded held es)"
| "guarded held (EvDelete k # es) = (held \<and> guarded held es)"
| "guarded held (e # es) = guarded held es"

section \<open>Status codes and errors\<close>

text \<open>
  Modelled from the spec: \<^verbatim>\<open>ErrorCode\<close> and its constants \<^verbatim>\<open>Success\<close> and \<^verbatim>\<open>Virus\<close> are
  declared in another file of the package. The spec names three classes of status: clean,
  infected, and an engine-defined status code; clamav.go only compares a status with
  \<^verbatim>\<open>Success\<close> and with \<^verbatim>\<open>Virus\<close> and hands it to \<^verbatim>\<open>cl_strerror\<close>.
\<close>

datatype ErrorCode = Success | Virus | Failure int

text \<open>
  A Go \<^verbatim>\<open>error\<close> built by \<^verbatim>\<open>fmt.Errorf\<close>: the format string and its arguments;
  \<open>None\<close> is the \<^verbatim>\<open>nil\<close> error.
\<close>

datatype error = Errorf string "string list"

section \<open>Sequencing and deferred calls\<close>

text \<open>
  \<open>bind\<close> goes on with the value of a call that returned and stops at any other outcome.
  \<open>deferred f\<close> wraps the rest of a function body after a \<^verbatim>\<open>defer\<close> statement: \<open>f\<close> runs
  when the body returns or panics, and a panic of \<open>f\<close> itself replaces the outcome.
\<close>

definition bind :: "'a outcome \<times> 's \<Rightarrow> ('a \<Rightarrow> 's \<Rightarrow> 'b outcome \<times> 's) \<Rightarrow> 'b outcome \<times> 's" where
  "bind m f =
     (case m of
        (Return x, s) \<Rightarrow> f x s
      | (Panicked msg, s) \<Rightarrow> (Panicked msg, s)
      | (Blocked, s) \<Rightarrow> (Blocked, s)
      | (Crashed msg, s) \<Rightarrow> (Crashed msg, s))"

definition deferred :: "('s \<Rightarrow> unit outcome \<times> 's) \<Rightarrow> 'a outcome \<times> 's \<Rightarrow> 'a outcome \<times> 's" where
  "deferred f m =
     (case m of
        (Blocked, s) \<Rightarrow> (Blocked, s)
      | (Crashed msg, s) \<Rightarrow> (Crashed msg, s)
      | (r, s) \<Rightarrow>
          (case f s of
             (Return u, s') \<Rightarrow> (r, s')
           | (Panicked msg, s') \<Rightarrow> (Panicked msg, s')
           | (Blocked, s') \<Rightarrow> (Blocked, s')
           | (Crashed msg, s') \<Rightarrow> (Crashed msg, s')))"

text \<open>
  \<^verbatim>\<open>C.CString\<close> copies a Go string to the C heap; \<open>a\<close> is the address the allocator
  answers. The Go runtime throws when that allocation fails. \<^verbatim>\<open>C.free\<close> as a deferred call.
\<close>

definition C_CString :: "ptr \<Rightarrow> 'v state \<Rightarrow> ptr outcome \<times> 'v state" where
  "C_CString a s =
     (if a = 0 then (Crashed ''runtime: C malloc failed'', s)
      else (Return a, s\<lparr>heap := insert a (heap s)\<rparr>))"

definition free_call :: "ptr \<Rightarrow> 'v state \<Rightarrow> unit outcome \<times> 'v state" where
  "free_call p s = (Return (), C_free p s)"

section \<open>Scanning\<close>

text \<open>
  What a foreign scan entry point reports: the status it returns, the string its
  \<^verbatim>\<open>name\<close> out-parameter points to (read by \<^verbatim>\<open>C.GoString\<close>) and the value it stores in
  \<^verbatim>\<open>scanned\<close> (a \<^verbatim>\<open>C.ulong\<close>, converted to a Go \<^verbatim>\<open>uint\<close>: 64 bits both).
\<close>

record cl_answer =
  status :: ErrorCode
  virname :: string
  scanned :: "64 word"

text \<open>
  The foreign side of one scan call: the address \<^verbatim>\<open>C.CString\<close> gets, the address
  \<^verbatim>\<open>C.malloc(1)\<close> answers inside \<^verbatim>\<open>setContext\<close>, what the engine reports, how many times the
  engine calls back during the scan, and \<^verbatim>\<open>cl_strerror\<close>.
\<close>

record scan_env =
  cstring_ret :: ptr
  malloc_ret :: ptr
  answer :: cl_answer
  ncallbacks :: nat
  cl_strerror :: "ErrorCode \<Rightarrow> string"

type_synonym scan_result = "string \<times> 64 word \<times> error option"

definition StrError :: "scan_env \<Rightarrow> ErrorCode \<Rightarrow> string" where
  "StrError env errno = cl_strerror env errno"

text \<open>
  Modelled from the spec: the callback-based entry points of the engine and the exported
  Go callbacks are not in clamav.go. The foreign engine invokes a resolve callback
  synchronously, zero or more times, always inside the outer scan call, always passing
  back exactly the key it was given; each callback resolves the key with
  \<^verbatim>\<open>findContext\<close>.
\<close>

primrec resolve_callbacks :: "nat \<Rightarrow> ptr \<Rightarrow> 'v state \<Rightarrow> unit outcome \<times> 'v state" where
  "resolve_callbacks 0 k s = (Return (), s)"
| "resolve_callbacks (Suc n) k s = bind (findContext k s) (\<lambda>v s1. resolve_callbacks n k s1)"

definition cl_scan_callback :: "scan_env \<Rightarrow> ptr \<Rightarrow> 'v state \<Rightarrow> cl_answer outcome \<times> 'v state" where
  "cl_scan_callback env cctx s =
     bind (resolve_callbacks (ncallbacks env) cctx (s\<lparr>trace := trace s @ [EvScanEnter cctx]\<rparr>))
       (\<lambda>u s1. (Return (answer env), s1\<lparr>trace := trace s1 @ [EvScanExit]\<rparr>))"

text \<open>
  \<^verbatim>\<open>cl_scandesc\<close> and \<^verbatim>\<open>cl_scanfile\<close> take no context and reach no callback of the
  registry: all they do here is report \<open>answer env\<close>. The three-way return is written
  out in each of the four scan functions, as in the source.
\<close>

definition ScanDesc :: "scan_env \<Rightarrow> string \<Rightarrow> int \<Rightarrow> 'v state \<Rightarrow> scan_result outcome \<times> 'v state" where
  "ScanDesc env filename desc s =
     bind (C_CString (cstring_ret env) s) (\<lambda>cFilename s1.
       deferred (free_call cFilename)
         (let err = status (answer env) in
          if err = Success then (Return ('''', 0, None), s1)
          else if err = Virus then
            (Return (virname (answer env), scanned (answer env), Some (Errorf (StrError env err) [])), s1)
          else (Return ('''', 0, Some (Errorf (StrError env err) [])), s1)))"

definition ScanFile :: "scan_env \<Rightarrow> string \<Rightarrow> 'v state \<Rightarrow> scan_result outcome \<times> 'v state" where
  "ScanFile env path s =
     bind (C_CString (cstring_ret env) s) (\<lambda>cpath s1.
       deferred (free_call cpath)
         (let err = status (answer env) in
          if err = Success then (Return ('''', 0, None), s1)
          else if err = Virus then
            (Return (virname (answer env), scanned (answer env), Some (Errorf (StrError env err) [])), s1)
          else (Return ('''', 0, Some (Errorf (StrError env err) [])), s1)))"

definition ScanFileCb :: "scan_env \<Rightarrow> string \<Rightarrow> 'v \<Rightarrow> 'v state \<Rightarrow> scan_result outcome \<times> 'v state" where
  "ScanFileCb env path context s =
     bind (C_CString (cstring_ret env) s) (\<lambda>cpath s1.
       deferred (free_call cpath)
         (bind (setContext (malloc_ret env) context s1) (\<lambda>cctx s2.
            deferred (deleteContext cctx)
              (bind (cl_scan_callback env cctx s2) (\<lambda>a s3.
                 let err = status a in
                 if err = Success then (Return ('''', 0, None), s3)
                 else if err = Virus then
                   (Return (virname a, scanned a, Some (Errorf (StrError env err) [])), s3)
                 else (Return ('''', 0, Some (Errorf (StrError env err) [])), s3))))))"

definition ScanMapCb :: "scan_env \<Rightarrow> ptr \<Rightarrow> string \<Rightarrow> 'v \<Rightarrow> 'v state \<Rightarrow> scan_result outcome \<times> 'v state" where
  "ScanMapCb env fmap filename context s =
     bind (setContext (malloc_ret env) context s) (\<lambda>cctx s1.
       deferred (deleteContext cctx)
         (bind (C_CString (cstring_ret env) s1) (\<lambda>cfilename s2.
            deferred (free_call cfilename)
              (bind (cl_scan_callback env cctx s2) (\<lambda>a s3.
                 let err = status a in
                 if err = Success then (Return ('''', 0, None), s3)
                 else if err = Virus then
                   (Return (virname a, scanned a, Some (Errorf (StrError env err) [])), s3)
                 else (Return ('''', 0, Some (Errorf (StrError env err) [])), s3))))))"

text \<open>
  For stating what a callback scan does: the triple the scan functions build from the
  engine's answer, and the events of one callback scan whose key is the allocator's
  answer.
\<close>

definition scan_return :: "scan_env \<Rightarrow> scan_result" where
  "scan_return env =
     (if status (answer env) = Success then ('''', 0, None)
      else if status (answer env) = Virus then
        (virname (answer env), scanned (answer env),
         Some (Errorf (cl_strerror env (status (answer env))) []))
      else ('''', 0, Some (Errorf (cl_strerror env (status (answer env))) [])))"

definition scan_events :: "scan_env \<Rightarrow> event list" where
  "scan_events env =
     [EvLock, EvStore (malloc_ret env), EvUnlock, EvScanEnter (malloc_ret env)]
     @ concat (replicate (ncallbacks env) [EvLock, EvLoad (malloc_ret env), EvUnlock])
     @ [EvScanExit, EvLock, EvLoad (malloc_ret env), EvDelete (malloc_ret env), EvUnlock]"

section \<open>Library initialisation\<close>

text \<open>
  \<^verbatim>\<open>initOnce\<close> (has its function run already?), and what the C library has seen: the flags
  of every \<^verbatim>\<open>cl_init\<close> call (a \<^verbatim>\<open>C.uint\<close> each) and the number of
  \<^verbatim>\<open>cl_initialize_crypto\<close> calls.
\<close>

record libstate =
  once_done :: bool
  cl_init_calls :: "32 word list"
  crypto_inits :: nat

definition lib0 :: libstate where
  "lib0 = \<lparr>once_done = False, cl_init_calls = [], crypto_inits = 0\<rparr>"

definition InitCrypto :: "libstate \<Rightarrow> libstate" where
  "InitCrypto s = s\<lparr>crypto_inits := Suc (crypto_inits s)\<rparr>"

text \<open>
  \<open>Init cl_init strerror flags\<close>: \<open>cl_init\<close> is the status the C function answers for the
  flags it is given; \<^verbatim>\<open>flags\<close> is a Go \<^verbatim>\<open>uint\<close>, cut to a \<^verbatim>\<open>C.uint\<close>.
  \<^verbatim>\<open>onceerr\<close> starts as \<^verbatim>\<open>nil\<close> in every call.
\<close>

definition Init :: "(32 word \<Rightarrow> ErrorCode) \<Rightarrow> (ErrorCode \<Rightarrow> string) \<Rightarrow> 64 word \<Rightarrow> libstate
    \<Rightarrow> error option \<times> libstate" where
  "Init cl_init strerror flags s =
     (if once_done s then (None, s)
      else
        let s1 = s\<lparr>once_done := True, cl_init_calls := cl_init_calls s @ [ucast flags]\<rparr>;
            err = cl_init (ucast flags)
        in if err \<noteq> Success then (Some (Errorf ''Init: %v'' [strerror err]), s1)
           else (None, InitCrypto s1))"

text \<open>A sequence of \<^verbatim>\<open>Init\<close> calls, one per element of the list of flags.\<close>

fun Inits :: "(32 word \<Rightarrow> ErrorCode) \<Rightarrow> (ErrorCode \<Rightarrow> string) \<Rightarrow> 64 word list \<Rightarrow> libstate
    \<Rightarrow> error option list \<times> libstate" where
  "Inits cl_init strerror [] s = ([], s)"
| "Inits cl_init strerror (f # fs) s =
     (case Init cl_init strerror f s of (r, s1) \<Rightarrow>
        (case Inits cl_init strerror fs s1 of (rs, s2) \<Rightarrow> (r # rs, s2)))"

section \<open>Scanning memory\<close>

text \<open>
  A \<^verbatim>\<open>[]byte\<close>: the address of its backing array and its elements. Indexing an empty
  slice at 0 is a run-time panic.
\<close>

record byteslice =
  data :: ptr
  elems :: "8 word list"

definition OpenMemory :: "(ptr \<Rightarrow> 64 word \<Rightarrow> ptr) \<Rightarrow> byteslice \<Rightarrow> ptr outcome" where
  "OpenMemory cl_fmap_open_memory start =
     (if elems start = [] then Panicked ''runtime error: index out of range [0] with length 0''
      else Return (cl_fmap_open_memory (data start) (of_nat (length (elems start)))))"

section \<open>Database stat polling\<close>

text \<open>
  The \<^verbatim>\<open>Stat\<close> structures in memory, by address; of each one the model keeps the foreign
  calls made on it, in order. \<open>stat_env\<close> is the foreign side of one \<^verbatim>\<open>StatChkReload\<close>:
  what \<^verbatim>\<open>cl_statchkdir\<close>, \<^verbatim>\<open>cl_statfree\<close>, \<^verbatim>\<open>cl_statinidir\<close> and \<^verbatim>\<open>cl_retdbdir\<close> answer,
  the address \<^verbatim>\<open>new(Stat)\<close> gets, and \<^verbatim>\<open>cl_strerror\<close>.
\<close>

datatype stat_call = CallIniDir string | CallChkDir | CallFree

type_synonym stat_store = "ptr \<rightharpoonup> stat_call list"

record stat_env =
  chkdir_ret :: int
  statfree_ret :: ErrorCode
  inidir_ret :: ErrorCode
  retdbdir :: string
  new_stat :: ptr
  stat_strerror :: "ErrorCode \<Rightarrow> string"

definition foreign_call :: "ptr \<Rightarrow> stat_call \<Rightarrow> stat_store \<Rightarrow> stat_store" where
  "foreign_call p c st = st(p \<mapsto> (case st p of None \<Rightarrow> [c] | Some cs \<Rightarrow> cs @ [c]))"

definition DBDir :: "stat_env \<Rightarrow> string" where
  "DBDir env = retdbdir env"

definition StatIniDir :: "stat_env \<Rightarrow> string \<Rightarrow> ptr \<Rightarrow> stat_store \<Rightarrow> error option \<times> stat_store" where
  "StatIniDir env dir stat st =
     (let err = inidir_ret env; st1 = foreign_call stat (CallIniDir dir) st in
      if err \<noteq> Success then (Some (Errorf ''StatIniDir: %v'' [stat_strerror env err]), st1)
      else (None, st1))"

definition StatChkDir :: "stat_env \<Rightarrow> ptr \<Rightarrow> stat_store \<Rightarrow> bool \<times> stat_store" where
  "StatChkDir env stat st =
     (let t = chkdir_ret env; st1 = foreign_call stat CallChkDir st in
      if t = 1 then (True, st1) else (False, st1))"

definition StatFree :: "stat_env \<Rightarrow> ptr \<Rightarrow> stat_store \<Rightarrow> error option \<times> stat_store" where
  "StatFree env stat st =
     (let err = statfree_ret env; st1 = foreign_call stat CallFree st in
      if err \<noteq> Success then (Some (Errorf ''StatFree: %v'' [stat_strerror env err]), st1)
      else (None, st1))"

text \<open>
  \<^verbatim>\<open>stat = new(Stat)\<close> rebinds the parameter, a copy of the caller's pointer, to a fresh
  zeroed structure; the function returns a flag and an error, no pointer.
\<close>

definition StatChkReload :: "stat_env \<Rightarrow> ptr \<Rightarrow> stat_store \<Rightarrow> (bool \<times> error option) \<times> stat_store" where
  "StatChkReload env stat st =
     (case StatChkDir env stat st of
        (True, st1) \<Rightarrow>
          (case StatFree env stat st1 of (ignored, st2) \<Rightarrow>
             (let stat' = new_stat env; st3 = st2(stat' \<mapsto> []) in
              case StatIniDir env (DBDir env) stat' st3 of (err, st4) \<Rightarrow> ((True, err), st4)))
      | (False, st1) \<Rightarrow> ((False, None), st1))"

section \<open>Basic facts\<close>

lemma quiescent_callbacks0: "0 \<notin> H \<Longrightarrow> quiescent (callbacks0 H)"
  by (simp add: quiescent_def callbacks0_def)

lemma setContext_nil: "setContext 0 i s = (Panicked ''C malloc'', s)"
  by (simp add: setContext_def C_malloc_def)

lemma setContext_ok:
  "r \<noteq> 0 \<Longrightarrow> \<not> mu s \<Longrightarrow>
   setContext r i s =
     (Return r, s\<lparr>mu := False, cb := (cb s)(r \<mapsto> i), heap := insert r (heap s),
                  trace := trace s @ [EvLock, EvStore r, EvUnlock]\<rparr>)"
  by (simp add: setContext_def C_malloc_def Lock_def Unlock_def mapStore_def)

lemma findContext_hit:
  "\<not> mu s \<Longrightarrow> cb s k = Some v \<Longrightarrow>
   findContext k s = (Return v, s\<lparr>mu := False, trace := trace s @ [EvLock, EvLoad k, EvUnlock]\<rparr>)"
  by (simp add: findContext_def Lock_def Unlock_def mapLoad_def)

lemma findContext_miss:
  "\<not> mu s \<Longrightarrow> cb s k = None \<Longrightarrow>
   findContext k s = (Panicked ''no context for callback'',
                      s\<lparr>mu := False, trace := trace s @ [EvLock, EvLoad k, EvUnlock]\<rparr>)"
  by (simp add: findContext_def Lock_def Unlock_def mapLoad_def)

lemma deleteContext_hit:
  "\<not> mu s \<Longrightarrow> cb s k = Some v \<Longrightarrow>
   deleteContext k s =
     (Return (), s\<lparr>mu := False, cb := (cb s)(k := None), heap := heap s - {k},
                   trace := trace s @ [EvLock, EvLoad k, EvDelete k, EvUnlock]\<rparr>)"
  by (simp add: deleteContext_def Lock_def Unlock_def mapLoad_def mapDelete_def C_free_def)

lemma deleteContext_miss:
  "\<not> mu s \<Longrightarrow> cb s k = None \<Longrightarrow>
   deleteContext k s = (Panicked ''no context to delete'',
                        s\<lparr>mu := False, trace := trace s @ [EvLock, EvLoad k, EvUnlock]\<rparr>)"
  by (simp add: deleteContext_def Lock_def Unlock_def mapLoad_def)

lemmas registry_defs =
  setContext_def findContext_def deleteContext_def C_malloc_def C_free_def Lock_def Unlock_def
  mapStore_def mapLoad_def mapDelete_def malloc_ok_def quiescent_def callbacks0_def

subsection \<open>The mutex is free between calls\<close>

lemma step_mu: "\<not> mu s \<Longrightarrow> \<not> mu (step x s)"
  by (cases x)
     (auto simp: setContext_def findContext_def deleteContext_def C_malloc_def Lock_def
        Unlock_def mapStore_def mapLoad_def mapDelete_def C_free_def split: option.splits)

lemma run_mu: "\<not> mu s \<Longrightarrow> \<not> mu (run xs s)"
  by (induction xs arbitrary: s) (auto simp: step_mu)

subsection \<open>Keys are live allocations\<close>

lemma quiescent_setContext:
  "quiescent s \<Longrightarrow> malloc_ok r s \<Longrightarrow> quiescent (snd (setContext r v s))"
  by (cases "r = 0") (auto simp: setContext_nil setContext_ok quiescent_def)

lemma quiescent_findContext: "quiescent s \<Longrightarrow> quiescent (snd (findContext k s))"
  by (cases "cb s k") (auto simp: findContext_hit findContext_miss quiescent_def)

lemma quiescent_deleteContext: "quiescent s \<Longrightarrow> quiescent (snd (deleteContext k s))"
  by (cases "cb s k") (auto simp: deleteContext_hit deleteContext_miss quiescent_def)

lemma alloc_ok_Cons: "alloc_ok (x # xs) s = (alloc_ok [x] s \<and> alloc_ok xs (step x s))"
  by (cases x) auto

lemma quiescent_step: "quiescent s \<Longrightarrow> alloc_ok [x] s \<Longrightarrow> quiescent (step x s)"
  by (cases x)
     (simp_all add: quiescent_setContext quiescent_findContext quiescent_deleteContext)

lemma quiescent_run: "quiescent s \<Longrightarrow> alloc_ok xs s \<Longrightarrow> quiescent (run xs s)"
proof (induction xs arbitrary: s)
  case Nil
  then show ?case by simp
next
  case (Cons x xs)
  from Cons.prems have ok: "alloc_ok [x] s" "alloc_ok xs (step x s)"
    using alloc_ok_Cons [of x xs s] by auto
  from Cons.prems(1) ok(1) have "quiescent (step x s)" by (rule quiescent_step)
  with Cons.IH ok(2) show ?case by simp
qed

lemma setContext_adds_one:
  assumes "quiescent s" "malloc_ok r s" "setContext r v s = (Return k, s1)"
  shows "k \<noteq> 0 \<and> k \<notin> dom (cb s) \<and> cb s1 = (cb s)(k \<mapsto> v) \<and> quiescent s1"
proof -
  from assms(3) have r: "r \<noteq> 0" "k = r"
    by (auto simp: setContext_def C_malloc_def split: if_splits)
  from assms(1) have nm: "\<not> mu s" by (simp add: quiescent_def)
  from assms(1,2) r have fresh: "k \<notin> dom (cb s)" by (auto simp: malloc_ok_def quiescent_def)
  from assms(3) r nm have c: "cb s1 = (cb s)(k \<mapsto> v)" by (auto simp: setContext_ok)
  from quiescent_setContext [OF assms(1,2), of v] assms(3) have "quiescent s1" by simp
  with r fresh c show ?thesis by simp
qed

lemma deleteContext_removes_one:
  assumes "\<not> mu s" "deleteContext k s = (Return (), s1)"
  shows "k \<in> dom (cb s) \<and> cb s1 = (cb s)(k := None) \<and> heap s1 = heap s - {k}"
proof (cases "cb s k")
  case None
  with assms show ?thesis by (simp add: deleteContext_miss)
next
  case (Some v)
  with assms show ?thesis by (auto simp: deleteContext_hit)
qed

subsection \<open>An entry stays until it is deleted; a missing key stays missing until minted\<close>

lemma step_keeps_entry:
  assumes "quiescent s" "cb s k = Some v" "alloc_ok [x] s" "x \<noteq> DeleteContext k"
  shows "cb (step x s) k = Some v"
proof (cases x)
  case (SetContext r w)
  with assms have "r = 0 \<or> r \<noteq> k" by (auto simp: malloc_ok_def quiescent_def)
  with assms SetContext show ?thesis
    by (cases "r = 0") (auto simp: setContext_nil setContext_ok quiescent_def)
next
  case (FindContext j)
  with assms show ?thesis
    by (cases "cb s j") (auto simp: findContext_hit findContext_miss quiescent_def)
next
  case (DeleteContext j)
  with assms show ?thesis
    by (cases "cb s j") (auto simp: deleteContext_hit deleteContext_miss quiescent_def)
qed

lemma run_keeps_entry:
  "quiescent s \<Longrightarrow> cb s k = Some v \<Longrightarrow> alloc_ok xs s \<Longrightarrow> DeleteContext k \<notin> set xs \<Longrightarrow>
   cb (run xs s) k = Some v"
proof (induction xs arbitrary: s)
  case Nil
  then show ?case by simp
next
  case (Cons x xs)
  from Cons.prems have ok: "alloc_ok [x] s" "alloc_ok xs (step x s)"
    using alloc_ok_Cons [of x xs s] by auto
  from Cons.prems ok have "cb (step x s) k = Some v"
    by (intro step_keeps_entry) auto
  moreover from Cons.prems(1) ok(1) have "quiescent (step x s)" by (rule quiescent_step)
  ultimately show ?case using Cons ok by simp
qed



subsection \<open>Counting registrations and releases\<close>

lemma step_count:
  assumes "quiescent s" "alloc_ok [x] s"
  shows "count (mset (minted x s)) k + (if k \<in> dom (cb s) then 1 else 0) =
         count (mset (released x s)) k + (if k \<in> dom (cb (step x s)) then 1 else 0)"
proof (cases x)
  case (SetContext r w)
  from assms have m: "\<not> mu s" by (simp add: quiescent_def)
  show ?thesis
  proof (cases "r = 0")
    case True
    with SetContext show ?thesis by (simp add: setContext_nil)
  next
    case False
    with assms SetContext have "r \<notin> dom (cb s)" by (auto simp: malloc_ok_def quiescent_def)
    with False SetContext m show ?thesis by (auto simp: setContext_ok)
  qed
next
  case (FindContext j)
  with assms show ?thesis
    by (cases "cb s j") (auto simp: findContext_hit findContext_miss quiescent_def)
next
  case (DeleteContext j)
  with assms show ?thesis
    by (cases "cb s j") (auto simp: deleteContext_hit deleteContext_miss quiescent_def)
qed

lemma run_count:
  "quiescent s \<Longrightarrow> alloc_ok xs s \<Longrightarrow>
   count (mset (registered xs s)) k + (if k \<in> dom (cb s) then 1 else 0) =
   count (mset (unregistered xs s)) k + (if k \<in> dom (cb (run xs s)) then 1 else 0)"
proof (induction xs arbitrary: s)
  case Nil
  then show ?case by simp
next
  case (Cons x xs)
  from Cons.prems have ok: "alloc_ok [x] s" "alloc_ok xs (step x s)"
    using alloc_ok_Cons [of x xs s] by auto
  from Cons.prems(1) ok(1) have q: "quiescent (step x s)" by (rule quiescent_step)
  from Cons.IH [OF q ok(2)] step_count [OF Cons.prems(1) ok(1), of k]
  show ?case by simp
qed

lemma live_keys:
  assumes "0 \<notin> H" "alloc_ok xs (callbacks0 H)"
  shows "dom (cb (run xs (callbacks0 H))) =
         set_mset (mset (registered xs (callbacks0 H)) - mset (unregistered xs (callbacks0 H)))"
proof -
  have q: "quiescent (callbacks0 H)" using assms(1) by (rule quiescent_callbacks0)
  have e: "\<And>k. (k \<in> dom (cb (callbacks0 H :: 'a state))) = False" by (simp add: callbacks0_def)
  show ?thesis
  proof (rule set_eqI)
    fix k
    from run_count [OF q assms(2), of k]
    show "(k \<in> dom (cb (run xs (callbacks0 H)))) =
          (k \<in> set_mset (mset (registered xs (callbacks0 H)) - mset (unregistered xs (callbacks0 H))))"
      by (simp add: in_diff_count e split: if_splits)
  qed
qed

subsection \<open>Every map access is made under the mutex\<close>

lemma guarded_append:
  "guarded h xs \<Longrightarrow> guarded False ys \<Longrightarrow> guarded h (xs @ ys)"
  by (induction h xs rule: guarded.induct) auto

lemma step_guarded:
  assumes "\<not> mu s" "guarded False (trace s)"
  shows "guarded False (trace (step x s))"
proof (cases x)
  case (SetContext r w)
  with assms show ?thesis
    by (cases "r = 0") (auto simp: setContext_nil setContext_ok intro: guarded_append)
next
  case (FindContext j)
  with assms show ?thesis
    by (cases "cb s j") (auto simp: findContext_hit findContext_miss intro: guarded_append)
next
  case (DeleteContext j)
  with assms show ?thesis
    by (cases "cb s j") (auto simp: deleteContext_hit deleteContext_miss intro: guarded_append)
qed

lemma run_guarded:
  "\<not> mu s \<Longrightarrow> guarded False (trace s) \<Longrightarrow> guarded False (trace (run xs s))"
  by (induction xs arbitrary: s) (auto simp: step_mu step_guarded)

subsection \<open>A callback scan, step by step\<close>









lemmas scan_defs =
  ScanFileCb_def ScanMapCb_def ScanFile_def ScanDesc_def bind_def deferred_def C_CString_def
  free_call_def cl_scan_callback_def StrError_def scan_return_def scan_events_def

subsection \<open>Once initialised, always initialised\<close>

lemma Inits_done:
  "once_done s \<Longrightarrow> Inits ci se fs s = (replicate (length fs) None, s)"
  by (induction fs) (simp_all add: Init_def)

section \<open>The registry's contract\<close>

text \<open>
  C1. For every value \<open>v\<close>, resolving the key returned by registering \<open>v\<close> yields \<open>v\<close>
  again, at any point after the \<^verbatim>\<open>setContext\<close> call and before the matching
  \<^verbatim>\<open>deleteContext\<close>, whatever else is in the registry: from any state between calls
  whose keys are live allocations, after \<^verbatim>\<open>setContext\<close> returned \<open>k\<close> for \<open>v\<close> and after
  any further sequence of registry calls that holds no \<^verbatim>\<open>deleteContext(k)\<close> (the
  allocator answering null or an address outside every live allocation each time),
  \<^verbatim>\<open>findContext(k)\<close> returns \<open>v\<close>.
\<close>

theorem resolve_registered:
  assumes "quiescent s" "malloc_ok r s" "setContext r v s = (Return k, s1)"
    and "alloc_ok ops s1" "DeleteContext k \<notin> set ops"
  shows "fst (findContext k (run ops s1)) = Return v"
proof -
  from assms(1-3) have a: "cb s1 = (cb s)(k \<mapsto> v) \<and> quiescent s1"
    using setContext_adds_one [of s r v k s1] by blast
  then have "cb s1 k = Some v" by simp
  with a assms(4,5) have "cb (run ops s1) k = Some v" by (intro run_keeps_entry) auto
  moreover from a have "\<not> mu s1" by (simp add: quiescent_def)
  then have "\<not> mu (run ops s1)" by (rule run_mu)
  ultimately show ?thesis by (simp add: findContext_hit)
qed

theorem resolve_registered_witness:
  "quiescent (callbacks0 {} :: string state) \<and>
   malloc_ok 1 (callbacks0 {} :: string state) \<and>
   alloc_ok [SetContext 2 ''ctxB'', FindContext 2, DeleteContext 2, FindContext 7]
     (snd (setContext 1 ''ctxA'' (callbacks0 {}))) \<and>
   fst (findContext 1
     (run [SetContext 2 ''ctxB'', FindContext 2, DeleteContext 2, FindContext 7]
        (snd (setContext 1 ''ctxA'' (callbacks0 {}))))) = Return ''ctxA''"
  using resolve_registered [of "callbacks0 {} :: string state" 1 "''ctxA''" 1
      "snd (setContext 1 ''ctxA'' (callbacks0 {}))"
      "[SetContext 2 ''ctxB'', FindContext 2, DeleteContext 2, FindContext 7]"]
  by (simp add: registry_defs)





text \<open>
  C5, as stated: after a sequence of registry calls the keys of the map are the set of
  keys \<^verbatim>\<open>setContext\<close> returned minus the set of keys passed to completed
  \<^verbatim>\<open>deleteContext\<close> calls. It fails when the allocator hands a freed address out again:
  register at address 4096, release it, register again and get address 4096. The key is
  in the map, and it is in both sets.
\<close>

theorem live_keys_set_difference_counterexample:
  "quiescent (callbacks0 {} :: string state) \<and>
   alloc_ok [SetContext 4096 ''ctxA'', DeleteContext 4096, SetContext 4096 ''ctxB'']
     (callbacks0 {} :: string state) \<and>
   dom (cb (run [SetContext 4096 ''ctxA'', DeleteContext 4096, SetContext 4096 ''ctxB'']
              (callbacks0 {} :: string state))) \<noteq>
   set (registered [SetContext 4096 ''ctxA'', DeleteContext 4096, SetContext 4096 ''ctxB'']
          (callbacks0 {} :: string state))
   - set (unregistered [SetContext 4096 ''ctxA'', DeleteContext 4096, SetContext 4096 ''ctxB'']
            (callbacks0 {} :: string state))"
  by (simp add: registry_defs)

text \<open>
  C5, amended: starting from the empty registry, after every finite sequence of
  \<^verbatim>\<open>setContext\<close>, \<^verbatim>\<open>findContext\<close> and \<^verbatim>\<open>deleteContext\<close> calls the keys of the map are
  the keys \<^verbatim>\<open>setContext\<close> returned minus the keys of the completed \<^verbatim>\<open>deleteContext\<close>
  calls, each counted once per call (a multiset difference); every map access of the
  sequence is made with the mutex held; a \<^verbatim>\<open>setContext\<close> that returns adds exactly one
  entry, under a key that was not in the map; a \<^verbatim>\<open>deleteContext\<close> that returns removes
  exactly the entry of its key and frees the key's allocation.
\<close>

theorem live_keys_counted:
  assumes "0 \<notin> H" "alloc_ok ops (callbacks0 H)"
  shows "dom (cb (run ops (callbacks0 H))) =
           set_mset (mset (registered ops (callbacks0 H)) - mset (unregistered ops (callbacks0 H))) \<and>
         guarded False (trace (run ops (callbacks0 H))) \<and>
         (quiescent s \<and> malloc_ok r s \<and> setContext r v s = (Return k, s1) \<longrightarrow>
            k \<notin> dom (cb s) \<and> dom (cb s1) = insert k (dom (cb s))) \<and>
         (quiescent t \<and> deleteContext j t = (Return (), t1) \<longrightarrow>
            j \<in> dom (cb t) \<and> dom (cb t1) = dom (cb t) - {j} \<and> heap t1 = heap t - {j})"
proof (intro conjI impI)
  show "dom (cb (run ops (callbacks0 H))) =
        set_mset (mset (registered ops (callbacks0 H)) - mset (unregistered ops (callbacks0 H)))"
    using assms by (rule live_keys)
  show "guarded False (trace (run ops (callbacks0 H)))"
    by (rule run_guarded) (simp_all add: callbacks0_def)
next
  assume a: "quiescent s \<and> malloc_ok r s \<and> setContext r v s = (Return k, s1)"
  then have b: "k \<notin> dom (cb s) \<and> cb s1 = (cb s)(k \<mapsto> v)"
    using setContext_adds_one [of s r v k s1] by blast
  then show "k \<notin> dom (cb s)" by simp
  from b show "dom (cb s1) = insert k (dom (cb s))" by simp
next
  assume a: "quiescent t \<and> deleteContext j t = (Return (), t1)"
  then have b: "j \<in> dom (cb t) \<and> cb t1 = (cb t)(j := None) \<and> heap t1 = heap t - {j}"
    using deleteContext_removes_one [of t j t1] by (simp add: quiescent_def)
  then show "j \<in> dom (cb t)" by simp
  from b show "dom (cb t1) = dom (cb t) - {j}" by simp
  from b show "heap t1 = heap t - {j}" by simp
qed

theorem live_keys_counted_witness:
  "0 \<notin> ({} :: ptr set) \<and>
   alloc_ok [SetContext 1 ''ctxA'', DeleteContext 1, SetContext 1 ''ctxB'', FindContext 1]
     (callbacks0 {} :: string state) \<and>
   dom (cb (run [SetContext 1 ''ctxA'', DeleteContext 1, SetContext 1 ''ctxB'', FindContext 1]
     (callbacks0 {} :: string state))) = {1} \<and>
   quiescent (callbacks0 {} :: string state) \<and> malloc_ok 1 (callbacks0 {} :: string state) \<and>
   fst (setContext 1 ''ctxA'' (callbacks0 {})) = Return 1 \<and>
   dom (cb (snd (setContext 1 ''ctxA'' (callbacks0 {})))) = {1} \<and>
   quiescent (snd (setContext 1 ''ctxA'' (callbacks0 {}))) \<and>
   fst (deleteContext 1 (snd (setContext 1 ''ctxA'' (callbacks0 {})))) = Return () \<and>
   dom (cb (snd (deleteContext 1 (snd (setContext 1 ''ctxA'' (callbacks0 {})))))) = {} \<and>
   heap (snd (deleteContext 1 (snd (setContext 1 ''ctxA'' (callbacks0 {}))))) = {}"
  using live_keys_counted [where H = "{}"
      and ops = "[SetContext 1 ''ctxA'', DeleteContext 1, SetContext 1 ''ctxB'', FindContext 1]"
      and s = "callbacks0 {}" and r = 1 and v = "''ctxA''" and k = 1
      and ?s1.0 = "snd (setContext 1 ''ctxA'' (callbacks0 {}))"
      and t = "snd (setContext 1 ''ctxA'' (callbacks0 {}))"
      and j = 1 and ?t1.0 = "snd (deleteContext 1 (snd (setContext 1 ''ctxA'' (callbacks0 {}))))"]
  by (simp add: registry_defs)

text \<open>
  C6, as stated: no key is ever registered again after its release. It fails on the
  same allocator behaviour: key 4096 is released by the second call, and the allocator
  may then answer address 4096 again (it is no live allocation), so the next
  \<^verbatim>\<open>setContext\<close> returns the released key.
\<close>

theorem released_key_minted_again_counterexample:
  "quiescent (callbacks0 {} :: string state) \<and>
   alloc_ok [SetContext 4096 ''ctxA'', DeleteContext 4096] (callbacks0 {} :: string state) \<and>
   4096 \<in> set (unregistered [SetContext 4096 ''ctxA'', DeleteContext 4096]
                  (callbacks0 {} :: string state)) \<and>
   malloc_ok 4096
     (run [SetContext 4096 ''ctxA'', DeleteContext 4096] (callbacks0 {} :: string state)) \<and>
   fst (setContext 4096 ''ctxB''
          (run [SetContext 4096 ''ctxA'', DeleteContext 4096] (callbacks0 {} :: string state))) =
     Return 4096"
  by (simp add: registry_defs)

text \<open>
  C6, amended: every \<^verbatim>\<open>setContext\<close> call that returns gives a non-null key that is
  distinct from every key registered at that moment, also when two calls pass the same
  value: a second registration of the same value while the first is live gets another
  key, and both keys resolve to the value. (A key that has been released may be minted
  again by a later call.)
\<close>

theorem fresh_key_among_live:
  assumes "quiescent s" "malloc_ok r s" "setContext r v s = (Return k, s1)"
  shows "k \<noteq> 0 \<and> k \<notin> dom (cb s) \<and> cb s1 k = Some v \<and>
         (malloc_ok r' s1 \<and> setContext r' v s1 = (Return k', s2) \<longrightarrow>
            k' \<noteq> k \<and> cb s2 k = Some v \<and> cb s2 k' = Some v)"
proof -
  from assms have a: "k \<noteq> 0 \<and> k \<notin> dom (cb s) \<and> cb s1 = (cb s)(k \<mapsto> v) \<and> quiescent s1"
    by (rule setContext_adds_one)
  have "k' \<noteq> k \<and> cb s2 k = Some v \<and> cb s2 k' = Some v"
    if b: "malloc_ok r' s1 \<and> setContext r' v s1 = (Return k', s2)"
  proof -
    from a b have c: "k' \<notin> dom (cb s1) \<and> cb s2 = (cb s1)(k' \<mapsto> v)"
      using setContext_adds_one [of s1 r' v k' s2] by blast
    with a have "k' \<noteq> k" by auto
    with a c show ?thesis by simp
  qed
  with a show ?thesis by simp
qed

theorem fresh_key_among_live_witness:
  "quiescent (callbacks0 {} :: string state) \<and> malloc_ok 1 (callbacks0 {} :: string state) \<and>
   fst (setContext 1 ''ctx'' (callbacks0 {})) = Return 1 \<and>
   malloc_ok 2 (snd (setContext 1 ''ctx'' (callbacks0 {}))) \<and>
   fst (setContext 2 ''ctx'' (snd (setContext 1 ''ctx'' (callbacks0 {})))) = Return 2 \<and>
   (2::ptr) \<noteq> 1 \<and>
   cb (snd (setContext 2 ''ctx'' (snd (setContext 1 ''ctx'' (callbacks0 {}))))) 1 = Some ''ctx'' \<and>
   cb (snd (setContext 2 ''ctx'' (snd (setContext 1 ''ctx'' (callbacks0 {}))))) 2 = Some ''ctx''"
  using fresh_key_among_live [of "callbacks0 {} :: string state" 1 "''ctx''" 1
      "snd (setContext 1 ''ctx'' (callbacks0 {}))" 2 2
      "snd (setContext 2 ''ctx'' (snd (setContext 1 ''ctx'' (callbacks0 {}))))"]
  by (simp add: registry_defs)

section \<open>Scans\<close>



text \<open>
  C7. The claim: every scan operation returns, besides the classification, the count of
  bytes processed in every case; the comment above \<^verbatim>\<open>ScanFile\<close> says the same ("It
  returns the virus name (if found), the number of bytes read from the file, ..."). The
  code returns the literal 0 as the count unless a virus was found: for a clean file of
  which the engine reports 4096 units scanned, \<^verbatim>\<open>ScanFile\<close> returns the count 0, and so
  does \<^verbatim>\<open>ScanDesc\<close> when the engine reports an error.
\<close>

theorem ScanFile_clean_drops_count:
  "fst (ScanFile \<lparr>cstring_ret = 16, malloc_ret = 0,
                  answer = \<lparr>status = Success, virname = '''', scanned = 4096\<rparr>,
                  ncallbacks = 0, cl_strerror = (\<lambda>e. ''No viruses detected'')\<rparr>
          ''/tmp/clean.txt'' (callbacks0 {} :: string state)) = Return ('''', 0, None) \<and>
   fst (ScanDesc \<lparr>cstring_ret = 16, malloc_ret = 0,
                  answer = \<lparr>status = Failure 2, virname = '''', scanned = 4096\<rparr>,
                  ncallbacks = 0, cl_strerror = (\<lambda>e. ''Cannot open file'')\<rparr>
          ''/tmp/clean.txt'' 3 (callbacks0 {} :: string state)) =
     Return ('''', 0, Some (Errorf ''Cannot open file'' []))"
  by (simp add: scan_defs C_free_def callbacks0_def)

section \<open>Stat polling, initialisation, memory maps\<close>

text \<open>
  C8. When \<^verbatim>\<open>StatChkDir\<close> reports a change, \<^verbatim>\<open>StatChkReload\<close> frees the caller's
  \<^verbatim>\<open>Stat\<close> and initialises a freshly allocated one that only its own parameter variable
  points to: the structure at the caller's address has \<^verbatim>\<open>cl_statfree\<close> as the last
  foreign call made on it, the structure initialised by \<^verbatim>\<open>cl_statinidir\<close> lies at the
  other, new address, no other structure is touched, and the function returns only the
  flag and the error of \<^verbatim>\<open>StatIniDir\<close>, so the caller is left with the freed structure.
\<close>

theorem StatChkReload_rebinds_local:
  assumes "chkdir_ret env = 1" "new_stat env \<noteq> stat"
  shows "fst (StatChkReload env stat st) =
           (True, if inidir_ret env \<noteq> Success
                  then Some (Errorf ''StatIniDir: %v'' [stat_strerror env (inidir_ret env)])
                  else None) \<and>
         snd (StatChkReload env stat st) stat =
           Some ((case st stat of None \<Rightarrow> [] | Some cs \<Rightarrow> cs) @ [CallChkDir, CallFree]) \<and>
         snd (StatChkReload env stat st) (new_stat env) = Some [CallIniDir (retdbdir env)] \<and>
         (\<forall>p. p \<noteq> stat \<and> p \<noteq> new_stat env \<longrightarrow> snd (StatChkReload env stat st) p = st p)"
  using assms
  by (auto simp: StatChkReload_def StatChkDir_def StatFree_def StatIniDir_def DBDir_def
      foreign_call_def Let_def split: option.splits)

theorem StatChkReload_rebinds_local_witness:
  "(1::int) = 1 \<and> (200::ptr) \<noteq> 100 \<and>
   snd (StatChkReload \<lparr>chkdir_ret = 1, statfree_ret = Success, inidir_ret = Success,
                   retdbdir = ''/var/lib/clamav'', new_stat = 200,
                   stat_strerror = (\<lambda>e. ''err'')\<rparr> 100
     [100 \<mapsto> [CallIniDir ''/var/lib/clamav'']]) 100 =
     Some [CallIniDir ''/var/lib/clamav'', CallChkDir, CallFree] \<and>
   fst (StatChkReload \<lparr>chkdir_ret = 1, statfree_ret = Success, inidir_ret = Success,
                   retdbdir = ''/var/lib/clamav'', new_stat = 200,
                   stat_strerror = (\<lambda>e. ''err'')\<rparr> 100
     [100 \<mapsto> [CallIniDir ''/var/lib/clamav'']]) = (True, None)"
  using StatChkReload_rebinds_local [of "\<lparr>chkdir_ret = 1, statfree_ret = Success,
      inidir_ret = Success, retdbdir = ''/var/lib/clamav'', new_stat = 200,
      stat_strerror = (\<lambda>e. ''err'')\<rparr>" 100 "[100 \<mapsto> [CallIniDir ''/var/lib/clamav'']]"]
  by simp

text \<open>
  C9. In every sequence of \<^verbatim>\<open>Init\<close> calls that starts with \<^verbatim>\<open>initOnce\<close> unused, only
  the first call reaches \<^verbatim>\<open>cl_init\<close> (with its own flags, cut to 32 bits); every later
  call returns \<^verbatim>\<open>nil\<close> whatever its flags are, also when the first call returned the
  initialisation error, which is then never retried and never reported again (and the
  crypto subsystem is never initialised).
\<close>

theorem Init_runs_once:
  assumes "\<not> once_done s"
  shows "fst (Inits ci se (f # fs) s) = fst (Init ci se f s) # replicate (length fs) None \<and>
         cl_init_calls (snd (Inits ci se (f # fs) s)) = cl_init_calls s @ [ucast f] \<and>
         (ci (ucast f) \<noteq> Success \<longrightarrow>
            fst (Init ci se f s) = Some (Errorf ''Init: %v'' [se (ci (ucast f))]) \<and>
            crypto_inits (snd (Inits ci se (f # fs) s)) = crypto_inits s) \<and>
         (ci (ucast f) = Success \<longrightarrow>
            fst (Init ci se f s) = None \<and>
            crypto_inits (snd (Inits ci se (f # fs) s)) = Suc (crypto_inits s))"
proof -
  obtain r s1 where i: "Init ci se f s = (r, s1)" by (cases "Init ci se f s")
  with assms have d: "once_done s1" by (auto simp: Init_def Let_def InitCrypto_def split: if_splits)
  then have rest: "Inits ci se fs s1 = (replicate (length fs) None, s1)" by (rule Inits_done)
  from i assms have c: "cl_init_calls s1 = cl_init_calls s @ [ucast f]"
    by (auto simp: Init_def Let_def InitCrypto_def split: if_splits)
  from i assms have e: "ci (ucast f) \<noteq> Success \<Longrightarrow>
      r = Some (Errorf ''Init: %v'' [se (ci (ucast f))]) \<and> crypto_inits s1 = crypto_inits s"
    by (auto simp: Init_def Let_def)
  from i assms have k: "ci (ucast f) = Success \<Longrightarrow> r = None \<and> crypto_inits s1 = Suc (crypto_inits s)"
    by (auto simp: Init_def Let_def InitCrypto_def)
  from i rest c e k show ?thesis by simp
qed

theorem Init_runs_once_witness:
  "\<not> once_done lib0 \<and>
   Inits (\<lambda>fl. if fl = 0 then Success else Failure 2) (\<lambda>e. ''Null argument passed to function'')
     [4294967297, 0, 0] lib0 =
   ([Some (Errorf ''Init: %v'' [''Null argument passed to function'']), None, None],
    \<lparr>once_done = True, cl_init_calls = [1], crypto_inits = 0\<rparr>)"
  using Init_runs_once [of lib0 "\<lambda>fl. if fl = 0 then Success else Failure 2"
      "\<lambda>e. ''Null argument passed to function''" 4294967297 "[0, 0]"]
  by (simp add: lib0_def Init_def Let_def InitCrypto_def)

text \<open>
  C10. \<^verbatim>\<open>OpenMemory\<close> takes the address of the first element of its argument: called
  with an empty slice it panics with an index-out-of-range error and returns nothing;
  called with a non-empty slice it returns what \<^verbatim>\<open>cl_fmap_open_memory\<close> answers for the
  slice's address and length.
\<close>

theorem OpenMemory_empty_panics:
  "OpenMemory fm \<lparr>data = d, elems = []\<rparr> =
     Panicked ''runtime error: index out of range [0] with length 0'' \<and>
   OpenMemory fm \<lparr>data = d, elems = b # bs\<rparr> = Return (fm d (of_nat (Suc (length bs))))"
  by (simp add: OpenMemory_def)

end
